theory Spec2Isabelle
  imports Complex_Main "HOL-Library.AList" "HOL-Library.Sublist"
begin

section \<open>Python values, errors and strings\<close>

text \<open>
  The two scripts modelled here are \<^verbatim>\<open>lifecycle-manager.py\<close> (class
  \<^verbatim>\<open>ProjectLifecycleManager\<close>) and \<^verbatim>\<open>project-discovery-service.py\<close> (class
  \<^verbatim>\<open>ProjectDiscoveryService\<close>). Python exceptions are values of \<open>error\<close>; a function
  that can raise returns \<open>error + 'a\<close>, and one that can raise after it has changed the
  state returns the result together with the state reached. A dictionary is an
  association list in insertion order (\<open>d[k] = v\<close> is \<open>AList.update\<close>, a lookup is
  \<open>map_of\<close>). The argument \<open>now\<close> of an operation stands for the value of
  \<^verbatim>\<open>datetime.now()\<close> during that operation.
\<close>

datatype error =
    OSError
  | KeyError string
  | TypeError
  | ValueError
  | JSONDecodeError

text \<open>
  The values stored in a project record. \<open>PIso t\<close> is the ISO-8601 text of the instant
  \<open>t\<close> (microseconds), as written by \<^verbatim>\<open>datetime.isoformat()\<close> and read back by
  \<^verbatim>\<open>datetime.fromisoformat\<close>; \<open>PFloat\<close> carries the value of a float as a rational.
\<close>

datatype pyval =
    PStr string
  | PInt int
  | PFloat rat
  | PIso int
  | PList "string list"
  | PBool bool
  | PNone

type_synonym pdict = "(string \<times> pyval) list"

definition dict_item :: "(string \<times> 'v) list \<Rightarrow> string \<Rightarrow> error + 'v" where
  "dict_item d k = (case map_of d k of None \<Rightarrow> Inl (KeyError k) | Some v \<Rightarrow> Inr v)"

definition dict_update :: "('k \<times> 'v) list \<Rightarrow> ('k \<times> 'v) list \<Rightarrow> ('k \<times> 'v) list" where
  "dict_update d e = fold (\<lambda>(k, v). AList.update k v) e d"

definition lower_char :: "char \<Rightarrow> char" where
  "lower_char c =
     (case map_of (zip ''ABCDEFGHIJKLMNOPQRSTUVWXYZ'' ''abcdefghijklmnopqrstuvwxyz'') c of
        Some d \<Rightarrow> d
      | None \<Rightarrow> c)"

definition lower :: "string \<Rightarrow> string" where
  "lower s = map lower_char s"

primrec contains :: "string \<Rightarrow> string \<Rightarrow> bool" where
  "contains sub [] = (sub = [])"
| "contains sub (c # cs) = (prefix sub (c # cs) \<or> contains sub cs)"

fun split_on :: "char \<Rightarrow> string \<Rightarrow> string list" where
  "split_on c [] = [[]]"
| "split_on c (x # xs) =
     (if x = c then [] # split_on c xs
      else (case split_on c xs of [] \<Rightarrow> [[x]] | w # ws \<Rightarrow> (x # w) # ws))"

section \<open>Paths and the filesystem\<close>

text \<open>
  A path is the list of its components below the root. A filesystem is a finite table
  from paths to entries. A file carries the result of \<^verbatim>\<open>stat()\<close> (modification time in
  microseconds and size in bytes, \<open>None\<close> when reading the metadata raises
  \<^verbatim>\<open>OSError\<close>) and its text (\<open>None\<close> when it cannot be read); a directory carries its
  modification time.
\<close>

type_synonym path = "string list"

datatype entry =
    File "(int \<times> nat) option" "string option"
  | Dir "int option"

type_synonym fs = "(path \<times> entry) list"

definition pname :: "path \<Rightarrow> string" where
  "pname p = (if p = [] then [] else last p)"

definition parent :: "path \<Rightarrow> path" where
  "parent p = butlast p"

definition path_str :: "path \<Rightarrow> string" where
  "path_str p = concat (map ((#) CHR ''/'') p)"

definition path_of_str :: "string \<Rightarrow> path" where
  "path_of_str s = filter (\<lambda>c. c \<noteq> []) (split_on CHR ''/'' s)"

definition path_suffix :: "string \<Rightarrow> string" where
  "path_suffix n =
     (let r = takeWhile (\<lambda>c. c \<noteq> CHR ''.'') (rev n) in
      if length r = length n then []
      else (let i = length n - length r - 1 in
            if 0 < i \<and> i < length n - 1 then drop i n else []))"

definition exists_p :: "fs \<Rightarrow> path \<Rightarrow> bool" where
  "exists_p fs p = (map_of fs p \<noteq> None)"

definition is_dir :: "fs \<Rightarrow> path \<Rightarrow> bool" where
  "is_dir fs p = (case map_of fs p of Some (Dir _) \<Rightarrow> True | _ \<Rightarrow> False)"

definition is_file :: "fs \<Rightarrow> path \<Rightarrow> bool" where
  "is_file fs p = (case map_of fs p of Some (File _ _) \<Rightarrow> True | _ \<Rightarrow> False)"

definition children :: "fs \<Rightarrow> path \<Rightarrow> path list" where
  "children fs p = filter (\<lambda>q. q \<noteq> [] \<and> butlast q = p) (map fst fs)"

definition iterdir :: "fs \<Rightarrow> path \<Rightarrow> error + path list" where
  "iterdir fs p = (if is_dir fs p then Inr (children fs p) else Inl OSError)"

definition rglob :: "fs \<Rightarrow> path \<Rightarrow> path list" where
  "rglob fs p = (if is_dir fs p then filter (strict_prefix p) (map fst fs) else [])"

definition glob_ext :: "fs \<Rightarrow> path \<Rightarrow> string \<Rightarrow> path list" where
  "glob_ext fs p ext =
     (if is_dir fs p
      then filter (\<lambda>q. suffix ext (pname q)) (children fs p) else [])"

definition st_mtime :: "fs \<Rightarrow> path \<Rightarrow> error + int" where
  "st_mtime fs p =
     (case map_of fs p of
        Some (Dir (Some t)) \<Rightarrow> Inr t
      | Some (File (Some (t, _)) _) \<Rightarrow> Inr t
      | _ \<Rightarrow> Inl OSError)"

section \<open>Activity score and directory size (lifecycle-manager.py)\<close>

definition usec_per_day :: int where
  "usec_per_day = 86400000000"

definition days_between :: "int \<Rightarrow> int \<Rightarrow> int" where
  "days_between now t = (now - t) div usec_per_day"

definition recency_weight :: "int \<Rightarrow> rat" where
  "recency_weight days_ago =
     (if days_ago = 0 then 10
      else if days_ago \<le> 7 then 5
      else if days_ago \<le> 30 then 2
      else if days_ago \<le> 90 then 1
      else 0)"

text \<open>
  The loop of \<^verbatim>\<open>calculate_activity_score\<close> over \<^verbatim>\<open>project_path.rglob('*')\<close>. It has no
  exception handler: the first file whose metadata cannot be read ends the walk with the
  error.
\<close>

fun activity_walk :: "fs \<Rightarrow> int \<Rightarrow> path list \<Rightarrow> rat \<Rightarrow> nat \<Rightarrow> error + (rat \<times> nat)" where
  "activity_walk fs now [] total_score file_count = Inr (total_score, file_count)"
| "activity_walk fs now (f # rest) total_score file_count =
     (case map_of fs f of
        Some (File st _) \<Rightarrow>
          (case st of
             None \<Rightarrow> Inl OSError
           | Some (mod_time, _) \<Rightarrow>
               activity_walk fs now rest
                 (total_score + recency_weight (days_between now mod_time))
                 (file_count + 1))
      | _ \<Rightarrow> activity_walk fs now rest total_score file_count)"

definition calculate_activity_score :: "fs \<Rightarrow> int \<Rightarrow> path \<Rightarrow> error + rat" where
  "calculate_activity_score fs now project_path =
     (case activity_walk fs now (rglob fs project_path) 0 0 of
        Inl e \<Rightarrow> Inl e
      | Inr (total_score, file_count) \<Rightarrow> Inr (total_score / of_nat (max file_count 1)))"

text \<open>
  The loop of \<^verbatim>\<open>get_directory_size\<close>. The \<^verbatim>\<open>try\<close> encloses the whole loop, so the
  first error ends the walk and the total reached so far is kept.
\<close>

fun size_walk :: "fs \<Rightarrow> path list \<Rightarrow> nat \<Rightarrow> nat" where
  "size_walk fs [] total_size = total_size"
| "size_walk fs (f # rest) total_size =
     (case map_of fs f of
        Some (File st _) \<Rightarrow>
          (case st of
             None \<Rightarrow> total_size
           | Some (_, st_size) \<Rightarrow> size_walk fs rest (total_size + st_size))
      | _ \<Rightarrow> size_walk fs rest total_size)"

definition round_half_even :: "rat \<Rightarrow> int" where
  "round_half_even x =
     (let f = \<lfloor>x\<rfloor>; d = x - of_int f in
      if d < 1 / 2 then f else if 1 / 2 < d then f + 1
      else if even f then f else f + 1)"

definition round2 :: "rat \<Rightarrow> rat" where
  "round2 x = of_int (round_half_even (x * 100)) / 100"

definition get_directory_size :: "fs \<Rightarrow> path \<Rightarrow> rat" where
  "get_directory_size fs p = round2 (of_nat (size_walk fs (rglob fs p) 0) / (1024 * 1024))"

section \<open>Project qualification (project-discovery-service.py)\<close>

definition skip_dirs :: "string list" where
  "skip_dirs = [''.git'', ''.venv'', ''node_modules'', ''__pycache__'', ''.DS_Store'',
                ''systems'', ''.vault'', ''backups'']"

definition project_indicators :: "string list" where
  "project_indicators = [''CLAUDE.md'', ''package.json'', ''requirements.txt'', ''Cargo.toml'',
                         ''go.mod'', ''README.md'', ''index.html'', ''.gitignore'']"

definition key_indicators :: "string list" where
  "key_indicators = [''CLAUDE.md'', ''package.json'', ''requirements.txt'']"

definition is_project_directory :: "fs \<Rightarrow> path \<Rightarrow> bool" where
  "is_project_directory fs p =
     (if \<not> is_dir fs p then False
      else if pname p \<in> set skip_dirs then False
      else (let indicators_found =
                  length (filter (\<lambda>indicator. exists_p fs (p @ [indicator])) project_indicators);
                has_key_indicator =
                  list_ex (\<lambda>indicator. exists_p fs (p @ [indicator])) key_indicators
            in indicators_found \<ge> 2 \<or> has_key_indicator))"

text \<open>
  The weak markers of the specification: the indicators that are not key indicators.
\<close>

definition weak_indicators :: "string list" where
  "weak_indicators = filter (\<lambda>i. i \<notin> set key_indicators) project_indicators"

section \<open>Classification and analysis (lifecycle-manager.py)\<close>

definition is_space :: "char \<Rightarrow> bool" where
  "is_space c =
     (c \<in> set [CHR 0x09, CHR 0x0A, CHR 0x0B, CHR 0x0C, CHR 0x0D,
                CHR 0x1C, CHR 0x1D, CHR 0x1E, CHR 0x1F, CHR 0x20])"

definition strip :: "string \<Rightarrow> string" where
  "strip s = rev (dropWhile is_space (rev (dropWhile is_space s)))"

fun after_first :: "string \<Rightarrow> string \<Rightarrow> string option" where
  "after_first sub [] = (if sub = [] then Some [] else None)"
| "after_first sub (c # cs) =
     (if prefix sub (c # cs) then Some (drop (length sub) (c # cs)) else after_first sub cs)"

fun before_first :: "string \<Rightarrow> string \<Rightarrow> string" where
  "before_first sub [] = []"
| "before_first sub (c # cs) = (if prefix sub (c # cs) then [] else c # before_first sub cs)"

definition read_text :: "fs \<Rightarrow> path \<Rightarrow> error + string" where
  "read_text fs f = (case map_of fs f of Some (File _ (Some txt)) \<Rightarrow> Inr txt | _ \<Rightarrow> Inl OSError)"

definition classify_project_type :: "fs \<Rightarrow> path \<Rightarrow> string" where
  "classify_project_type fs project_path =
     (let files = rglob fs project_path;
          file_extensions = map (\<lambda>f. lower (path_suffix (pname f))) (filter (is_file fs) files);
          file_names = map (\<lambda>f. lower (pname f)) (filter (is_file fs) files)
      in if list_ex (\<lambda>n. n \<in> set file_names)
              [''package.json'', ''requirements.txt'', ''cargo.toml'', ''go.mod'']
         then ''development''
         else if list_ex (\<lambda>n. n \<in> set file_names) [''claude.md'', ''project-notes.md'', ''todo.md'']
         then ''claude-project''
         else if ''.py'' \<in> set file_extensions
                 \<and> list_ex (\<lambda>f. contains ''scraper'' (lower (path_str f))) files
         then ''scraper''
         else if list_ex (\<lambda>ext. ext \<in> set file_extensions) [''.csv'', ''.xlsx'', ''.json'']
                 \<and> length files < 50
         then ''data-analysis''
         else if list_ex (\<lambda>n. n \<in> set file_names) [''dashboard.html'', ''index.html'']
         then ''dashboard''
         else if length files < 10 then ''one-off''
         else if list_ex (\<lambda>f. contains ''system'' (lower (path_str f))
                              \<or> contains ''tool'' (lower (path_str f))) files
         then ''system-tool''
         else ''ongoing'')"

definition determine_lifecycle_stage :: "fs \<Rightarrow> int \<Rightarrow> path \<Rightarrow> error + string" where
  "determine_lifecycle_stage fs now project_path =
     (let parent_dir = pname (parent project_path) in
      if parent_dir = ''active'' then Inr ''active''
      else if parent_dir = ''staging'' then Inr ''staging''
      else if parent_dir = ''archive'' then Inr ''archived''
      else if parent_dir = ''systems'' then Inr ''system''
      else (case calculate_activity_score fs now project_path of
              Inl e \<Rightarrow> Inl e
            | Inr activity_score \<Rightarrow>
                Inr (if activity_score > 5 then ''should_be_active''
                     else if activity_score > 1 then ''should_be_staging''
                     else ''should_be_archived'')))"

text \<open>
  \<^verbatim>\<open>extract_project_metadata\<close>. Each of its two blocks runs under its own
  \<^verbatim>\<open>try\<close>; an exception leaves the metadata as it was when it was raised.
  \<open>json_load\<close> stands for \<^verbatim>\<open>json.load\<close> on the text of \<^verbatim>\<open>package.json\<close>: the
  object read, or \<open>None\<close> when the text is no JSON object.
\<close>

definition claude_metadata :: "string \<Rightarrow> pdict" where
  "claude_metadata content =
     (let lines = split_on CHR ''\<newline>'' content;
          m1 = (case filter (prefix ''# '') lines of
                  [] \<Rightarrow> []
                | line # _ \<Rightarrow> [(''title'', PStr (strip (drop 2 line)))])
      in if contains ''Tags:'' content
         then (case filter (contains ''Tags:'') lines of
                 [] \<Rightarrow> m1
               | tag_line # _ \<Rightarrow>
                   (case after_first ''Tags:'' tag_line of
                      None \<Rightarrow> m1
                    | Some r \<Rightarrow>
                        AList.update ''tags''
                          (PList (map strip (split_on CHR '','' (strip (before_first ''Tags:'' r)))))
                          m1))
         else m1)"

definition extract_project_metadata ::
  "(string \<Rightarrow> pdict option) \<Rightarrow> fs \<Rightarrow> path \<Rightarrow> pdict" where
  "extract_project_metadata json_load fs project_path =
     (let claude_file = project_path @ [''CLAUDE.md''];
          m1 = (if exists_p fs claude_file
                then (case read_text fs claude_file of
                        Inl e \<Rightarrow> []
                      | Inr content \<Rightarrow> claude_metadata content)
                else []);
          package_file = project_path @ [''package.json'']
      in if exists_p fs package_file
         then (case read_text fs package_file of
                 Inl e \<Rightarrow> m1
               | Inr txt \<Rightarrow>
                   (case json_load txt of
                      None \<Rightarrow> m1
                    | Some package_data \<Rightarrow>
                        AList.update ''description''
                          (case map_of package_data ''description'' of
                             None \<Rightarrow> PNone | Some v \<Rightarrow> v)
                          (AList.update ''title''
                             (case map_of package_data ''name'' of
                                Some v \<Rightarrow> v
                              | None \<Rightarrow> (case map_of m1 ''title'' of None \<Rightarrow> PNone | Some v \<Rightarrow> v))
                             m1)))
         else m1)"

definition analyze_project ::
  "(string \<Rightarrow> pdict option) \<Rightarrow> fs \<Rightarrow> int \<Rightarrow> path \<Rightarrow> error + pdict" where
  "analyze_project json_load fs now project_path =
     (case st_mtime fs project_path of
        Inl e \<Rightarrow> Inl e
      | Inr mtime \<Rightarrow>
          (case calculate_activity_score fs now project_path of
             Inl e \<Rightarrow> Inl e
           | Inr activity_score \<Rightarrow>
               (case determine_lifecycle_stage fs now project_path of
                  Inl e \<Rightarrow> Inl e
                | Inr current_stage \<Rightarrow>
                    Inr (dict_update
                      [(''id'', PStr (pname project_path)),
                       (''name'', PStr (pname project_path)),
                       (''path'', PStr (path_str project_path)),
                       (''discovered_at'', PIso now),
                       (''last_modified'', PIso mtime),
                       (''size_mb'', PFloat (get_directory_size fs project_path)),
                       (''file_count'', PInt (int (length (rglob fs project_path)))),
                       (''type'', PStr (classify_project_type fs project_path)),
                       (''activity_score'', PFloat activity_score),
                       (''lifecycle_stage'', PStr current_stage)]
                      (extract_project_metadata json_load fs project_path)))))"

section \<open>The registry and the lifecycle manager's state\<close>

record registry_doc =
  projects :: "(string \<times> pdict) list"
  last_updated :: int
  settings :: "pdict option"
  discovery_settings :: "(string \<times> pyval) list option"

text \<open>
  What the registry file holds: text that \<^verbatim>\<open>json.load\<close> rejects, or a document.
  A missing file is \<open>None\<close>. Writing the file is taken to succeed; log output is not part
  of the state.
\<close>

datatype file_content = Corrupt | Json registry_doc

record lm_state =
  lm_fs :: fs
  project_registry :: registry_doc
  metadata_file :: "file_content option"

definition default_registry :: "int \<Rightarrow> registry_doc" where
  "default_registry now =
     \<lparr>projects = [], last_updated = now,
      settings = Some [(''auto_archive_days'', PInt 30), (''cleanup_check_interval'', PInt 7),
                       (''backup_retention_days'', PInt 30)],
      discovery_settings = None\<rparr>"

definition save_project_registry :: "int \<Rightarrow> lm_state \<Rightarrow> lm_state" where
  "save_project_registry now st =
     (let r = (project_registry st)\<lparr>last_updated := now\<rparr>
      in st\<lparr>project_registry := r, metadata_file := Some (Json r)\<rparr>)"

definition load_project_registry :: "int \<Rightarrow> lm_state \<Rightarrow> error + lm_state" where
  "load_project_registry now st =
     (case metadata_file st of
        Some Corrupt \<Rightarrow> Inl JSONDecodeError
      | Some (Json d) \<Rightarrow> Inr (save_project_registry now (st\<lparr>project_registry := d\<rparr>))
      | None \<Rightarrow> Inr (save_project_registry now (st\<lparr>project_registry := default_registry now\<rparr>)))"

section \<open>Discovery, suggestions and moves (lifecycle-manager.py)\<close>

text \<open>
  The body of the loop of \<^verbatim>\<open>discover_projects\<close> for one child of the scan root. An
  exception of \<^verbatim>\<open>analyze_project\<close> leaves the loop, and the registry is not saved.
\<close>

fun discover_loop ::
  "(string \<Rightarrow> pdict option) \<Rightarrow> int \<Rightarrow> path list \<Rightarrow> pdict list \<Rightarrow> lm_state
     \<Rightarrow> (error + pdict list) \<times> lm_state" where
  "discover_loop json_load now [] discovered_projects st = (Inr discovered_projects, st)"
| "discover_loop json_load now (item # rest) discovered_projects st =
     (if is_dir (lm_fs st) item \<and> \<not> prefix ''.'' (pname item)
         \<and> pname item \<notin> set [''systems'', ''active'', ''staging'', ''archive'']
      then (case analyze_project json_load (lm_fs st) now item of
              Inl e \<Rightarrow> (Inl e, st)
            | Inr project_info \<Rightarrow>
                (case map_of project_info ''id'' of
                   Some (PStr project_id) \<Rightarrow>
                     (let reg = project_registry st;
                          ps = (case map_of (projects reg) project_id of
                                  None \<Rightarrow> AList.update project_id project_info (projects reg)
                                | Some old \<Rightarrow>
                                    AList.update project_id (dict_update old project_info)
                                      (projects reg))
                      in discover_loop json_load now rest (discovered_projects @ [project_info])
                           (st\<lparr>project_registry := reg\<lparr>projects := ps\<rparr>\<rparr>))
                 | _ \<Rightarrow> (Inl (KeyError ''id''), st)))
      else discover_loop json_load now rest discovered_projects st)"

definition discover_projects ::
  "(string \<Rightarrow> pdict option) \<Rightarrow> int \<Rightarrow> path \<Rightarrow> lm_state \<Rightarrow> (error + pdict list) \<times> lm_state" where
  "discover_projects json_load now scan_root st =
     (case iterdir (lm_fs st) scan_root of
        Inl e \<Rightarrow> (Inl e, st)
      | Inr items \<Rightarrow>
          (case discover_loop json_load now items [] st of
             (Inl e, st') \<Rightarrow> (Inl e, st')
           | (Inr discovered_projects, st') \<Rightarrow>
               (Inr discovered_projects, save_project_registry now st')))"

text \<open>
  A suggestion. The reason is a formatted text in the source; here it is the data the
  text is built from.
\<close>

datatype reason =
    DirectoryGone
  | ActivityReason rat int
  | InactiveFor int int
  | LargeProject rat

record suggestion =
  action :: string
  project :: string
  move_from :: "pyval option"
  move_to :: "string option"
  why :: reason
  priority :: string



definition as_path :: "pyval \<Rightarrow> error + path" where
  "as_path v = (case v of PStr s \<Rightarrow> Inr (path_of_str s) | _ \<Rightarrow> Inl TypeError)"


definition bind_err :: "error + 'a \<Rightarrow> ('a \<Rightarrow> error + 'b) \<Rightarrow> error + 'b" where
  "bind_err m f = (case m of Inl e \<Rightarrow> Inl e | Inr x \<Rightarrow> f x)"







definition target_dirs :: "path \<Rightarrow> (string \<times> path) list" where
  "target_dirs base =
     [(''active'', base @ [''active'']), (''staging'', base @ [''staging'']),
      (''archived'', base @ [''archive'']), (''system'', base @ [''systems''])]"

text \<open>
  \<^verbatim>\<open>move_project\<close>. \<open>mv\<close> stands for \<^verbatim>\<open>shutil.move\<close>: the filesystem it leaves
  and whether it returned (\<open>True\<close>) or raised. The record is read before the
  \<^verbatim>\<open>try\<close>, so a record without a path raises; inside the \<^verbatim>\<open>try\<close> the move comes
  first and the record is changed after it.
\<close>

definition move_project ::
  "(fs \<Rightarrow> path \<Rightarrow> path \<Rightarrow> fs \<times> bool) \<Rightarrow> path \<Rightarrow> int \<Rightarrow> string \<Rightarrow> string \<Rightarrow> lm_state
     \<Rightarrow> (error + bool) \<times> lm_state" where
  "move_project mv base now project_id target_stage st =
     (case map_of (projects (project_registry st)) project_id of
        None \<Rightarrow> (Inr False, st)
      | Some project_info \<Rightarrow>
          (case bind_err (dict_item project_info ''path'') as_path of
             Inl e \<Rightarrow> (Inl e, st)
           | Inr current_path \<Rightarrow>
               (case map_of (target_dirs base) target_stage of
                  None \<Rightarrow> (Inr False, st)
                | Some target_dir \<Rightarrow>
                    (let target_path = target_dir @ [project_id] in
                     if exists_p (lm_fs st) target_path then (Inr False, st)
                     else (let (fs', moved) = mv (lm_fs st) current_path target_path in
                           if \<not> moved then (Inr False, st\<lparr>lm_fs := fs'\<rparr>)
                           else (let info' = AList.update ''moved_at'' (PIso now)
                                       (AList.update ''lifecycle_stage'' (PStr target_stage)
                                         (AList.update ''path'' (PStr (path_str target_path))
                                            project_info));
                                     reg = project_registry st;
                                     st' = st\<lparr>lm_fs := fs',
                                              project_registry :=
                                                reg\<lparr>projects :=
                                                  AList.update project_id info' (projects reg)\<rparr>\<rparr>
                                 in (Inr True, save_project_registry now st')))))))"

definition archive_project ::
  "(fs \<Rightarrow> path \<Rightarrow> path \<Rightarrow> fs \<times> bool) \<Rightarrow> path \<Rightarrow> int \<Rightarrow> string \<Rightarrow> lm_state
     \<Rightarrow> (error + bool) \<times> lm_state" where
  "archive_project mv base now project_id st = move_project mv base now project_id ''archived'' st"

text \<open>The usual outcome of \<^verbatim>\<open>shutil.move\<close>: the tree is renamed; a missing source raises.\<close>

definition rename_tree :: "fs \<Rightarrow> path \<Rightarrow> path \<Rightarrow> fs \<times> bool" where
  "rename_tree fs src dst =
     (if exists_p fs src
      then (map (\<lambda>(q, e). if prefix src q then (dst @ drop (length src) q, e) else (q, e)) fs, True)
      else (fs, False))"

section \<open>The discovery service (project-discovery-service.py)\<close>

text \<open>
  The queue file \<^verbatim>\<open>dashboard-sync.json\<close>: its pending updates (project id, data,
  timestamp) and the time of the last sync, or text that \<^verbatim>\<open>json.load\<close> rejects.
\<close>

datatype sync_file = SyncCorrupt | SyncData "(string \<times> pdict \<times> int) list" int

record ds_state =
  ds_fs :: fs
  registry :: registry_doc
  registry_file :: "file_content option"
  known_projects :: "string set"
  dashboard_sync_file :: "sync_file option"
  tracked_operations :: nat

definition watch_dirs :: "path \<Rightarrow> path list" where
  "watch_dirs base = [base, base @ [''active''], base @ [''staging''], base @ [''archive'']]"

definition default_discovery_registry :: "int \<Rightarrow> registry_doc" where
  "default_discovery_registry now =
     \<lparr>projects = [], last_updated = now, settings = None,
      discovery_settings =
        Some [(''auto_discovery'', PBool True), (''sync_frequency_minutes'', PInt 5),
              (''watch_patterns'',
               PList [''CLAUDE.md'', ''TODO.md'', ''package.json'', ''requirements.txt''])]\<rparr>"

definition load_registry :: "int \<Rightarrow> ds_state \<Rightarrow> error + ds_state" where
  "load_registry now st =
     (case registry_file st of
        Some Corrupt \<Rightarrow> Inl JSONDecodeError
      | Some (Json d) \<Rightarrow> Inr (st\<lparr>registry := d\<rparr>)
      | None \<Rightarrow> Inr (st\<lparr>registry := default_discovery_registry now\<rparr>))"

definition save_registry :: "int \<Rightarrow> ds_state \<Rightarrow> ds_state" where
  "save_registry now st =
     (let r = (registry st)\<lparr>last_updated := now\<rparr>
      in st\<lparr>registry := r, registry_file := Some (Json r)\<rparr>)"

definition quick_type :: "fs \<Rightarrow> path \<Rightarrow> string" where
  "quick_type fs p =
     (if exists_p fs (p @ [''CLAUDE.md'']) then ''claude-project''
      else if exists_p fs (p @ [''package.json'']) then ''development-nodejs''
      else if exists_p fs (p @ [''requirements.txt'']) then ''development-python''
      else if exists_p fs (p @ [''index.html'']) then ''web-project''
      else if length (glob_ext fs p ''.csv'') > 0 then ''data-analysis''
      else if list_ex (\<lambda>word. contains word (lower (pname p))) [''scraper'', ''bot'', ''crawler'']
      then ''automation''
      else (let py_files = length (glob_ext fs p ''.py'');
                js_files = length (glob_ext fs p ''.js'')
            in if py_files > js_files then ''development-python''
               else if js_files > 0 then ''development-web''
               else ''general''))"

definition quick_status :: "path \<Rightarrow> string" where
  "quick_status p =
     (let parent_name = pname (parent p) in
      if parent_name = ''active'' then ''active''
      else if parent_name = ''staging'' then ''staging''
      else if parent_name = ''archive'' then ''archived''
      else ''discovered'')"

text \<open>
  \<^verbatim>\<open>analyze_project_quick\<close>: the record is built with type \<^verbatim>\<open>unknown\<close> and status
  \<^verbatim>\<open>discovered\<close>, then the type and the status are assigned (\<open>quick_type\<close> and
  \<open>quick_status\<close> are its two \<^verbatim>\<open>if\<close> cascades).
\<close>

definition analyze_project_quick :: "fs \<Rightarrow> int \<Rightarrow> path \<Rightarrow> error + pdict" where
  "analyze_project_quick fs now p =
     (case st_mtime fs p of
        Inl e \<Rightarrow> Inl e
      | Inr mtime \<Rightarrow>
          Inr (AList.update ''status'' (PStr (quick_status p))
                (AList.update ''type'' (PStr (quick_type fs p))
                  [(''id'', PStr (pname p)),
                   (''name'', PStr (pname p)),
                   (''path'', PStr (path_str p)),
                   (''discovered_at'', PIso now),
                   (''type'', PStr ''unknown''),
                   (''status'', PStr ''discovered''),
                   (''last_modified'', PIso mtime)])))"

definition detect_project_type :: "fs \<Rightarrow> path \<Rightarrow> string" where
  "detect_project_type fs project_path =
     (if exists_p fs (project_path @ [''package.json'']) then ''nodejs''
      else if exists_p fs (project_path @ [''requirements.txt''])
              \<or> glob_ext fs project_path ''.py'' \<noteq> [] then ''python''
      else if exists_p fs (project_path @ [''Cargo.toml'']) then ''rust''
      else if exists_p fs (project_path @ [''go.mod'']) then ''golang''
      else if glob_ext fs project_path ''.html'' \<noteq> [] \<or> glob_ext fs project_path ''.css'' \<noteq> []
              \<or> glob_ext fs project_path ''.js'' \<noteq> [] then ''web''
      else if glob_ext fs project_path ''.md'' \<noteq> [] then ''documentation''
      else ''general'')"

text \<open>
  \<^verbatim>\<open>apply_template_inheritance\<close>. The generator is loaded from
  \<^verbatim>\<open>systems/secure-template-generator.py\<close> when that file exists; \<open>gen\<close> stands for what
  constructing it and calling \<^verbatim>\<open>apply_project_template\<close> leave on the filesystem. The
  call is wrapped in \<^verbatim>\<open>try\<close>/\<^verbatim>\<open>except Exception\<close>, so it always returns.
\<close>

definition apply_template_inheritance ::
  "(path \<Rightarrow> string \<Rightarrow> fs \<Rightarrow> fs) \<Rightarrow> path \<Rightarrow> fs \<Rightarrow> path \<Rightarrow> fs" where
  "apply_template_inheritance gen base fs project_path =
     (if exists_p fs (base @ [''systems'', ''secure-template-generator.py''])
      then gen project_path (detect_project_type fs project_path) fs
      else fs)"

definition queue_dashboard_sync :: "int \<Rightarrow> pdict \<Rightarrow> ds_state \<Rightarrow> ds_state" where
  "queue_dashboard_sync now project_info st =
     (case dashboard_sync_file st of
        Some SyncCorrupt \<Rightarrow> st
      | Some (SyncData pending last_sync) \<Rightarrow>
          (case map_of project_info ''id'' of
             Some (PStr pid) \<Rightarrow>
               st\<lparr>dashboard_sync_file :=
                    Some (SyncData (pending @ [(pid, project_info, now)]) last_sync)\<rparr>
           | _ \<Rightarrow> st)
      | None \<Rightarrow>
          (case map_of project_info ''id'' of
             Some (PStr pid) \<Rightarrow>
               st\<lparr>dashboard_sync_file := Some (SyncData [(pid, project_info, now)] now)\<rparr>
           | _ \<Rightarrow> st))"

text \<open>
  The registration both branches of \<^verbatim>\<open>check_new_project\<close> end with: analyse, store
  under the id, remember the id, save, queue the sync, count the operation.
\<close>

definition register_project :: "int \<Rightarrow> path \<Rightarrow> ds_state \<Rightarrow> (error + bool) \<times> ds_state" where
  "register_project now p st =
     (case analyze_project_quick (ds_fs st) now p of
        Inl e \<Rightarrow> (Inl e, st)
      | Inr project_info \<Rightarrow>
          (let reg = registry st;
               st1 = st\<lparr>registry :=
                          reg\<lparr>projects := AList.update (pname p) project_info (projects reg)\<rparr>,
                        known_projects := insert (pname p) (known_projects st)\<rparr>;
               st2 = queue_dashboard_sync now project_info (save_registry now st1)
           in (Inr True, st2\<lparr>tracked_operations := tracked_operations st2 + 1\<rparr>)))"

definition check_new_project ::
  "(path \<Rightarrow> string \<Rightarrow> fs \<Rightarrow> fs) \<Rightarrow> path \<Rightarrow> int \<Rightarrow> path \<Rightarrow> ds_state
     \<Rightarrow> (error + bool) \<times> ds_state" where
  "check_new_project gen base now p st =
     (if is_dir (ds_fs st) p \<and> pname (parent p) \<in> set [''active'', ''staging'', ''archive'']
         \<and> pname p \<notin> known_projects st
      then (let st1 = st\<lparr>ds_fs := apply_template_inheritance gen base (ds_fs st) p\<rparr> in
            if is_project_directory (ds_fs st1) p then register_project now p st1
            else (Inr False, st1))
      else if \<not> is_project_directory (ds_fs st) p then (Inr False, st)
      else if pname p \<in> known_projects st then (Inr False, st)
      else register_project now p st)"

fun scan_items ::
  "(path \<Rightarrow> string \<Rightarrow> fs \<Rightarrow> fs) \<Rightarrow> path \<Rightarrow> int \<Rightarrow> path list \<Rightarrow> nat \<Rightarrow> ds_state
     \<Rightarrow> (error + nat) \<times> ds_state" where
  "scan_items gen base now [] discovered st = (Inr discovered, st)"
| "scan_items gen base now (item # rest) discovered st =
     (if is_dir (ds_fs st) item \<and> is_project_directory (ds_fs st) item
      then (case check_new_project gen base now item st of
              (Inl e, st') \<Rightarrow> (Inl e, st')
            | (Inr b, st') \<Rightarrow>
                scan_items gen base now rest (if b then discovered + 1 else discovered) st')
      else scan_items gen base now rest discovered st)"

fun scan_dirs ::
  "(path \<Rightarrow> string \<Rightarrow> fs \<Rightarrow> fs) \<Rightarrow> path \<Rightarrow> int \<Rightarrow> path list \<Rightarrow> nat \<Rightarrow> ds_state
     \<Rightarrow> (error + nat) \<times> ds_state" where
  "scan_dirs gen base now [] discovered st = (Inr discovered, st)"
| "scan_dirs gen base now (watch_dir # rest) discovered st =
     (if \<not> exists_p (ds_fs st) watch_dir then scan_dirs gen base now rest discovered st
      else (case iterdir (ds_fs st) watch_dir of
              Inl e \<Rightarrow> (Inl e, st)
            | Inr items \<Rightarrow>
                (case scan_items gen base now items discovered st of
                   (Inl e, st') \<Rightarrow> (Inl e, st')
                 | (Inr discovered', st') \<Rightarrow> scan_dirs gen base now rest discovered' st')))"

definition discover_all_projects ::
  "(path \<Rightarrow> string \<Rightarrow> fs \<Rightarrow> fs) \<Rightarrow> path \<Rightarrow> int \<Rightarrow> ds_state \<Rightarrow> (error + nat) \<times> ds_state" where
  "discover_all_projects gen base now st = scan_dirs gen base now (watch_dirs base) 0 st"

section \<open>Notions used in the statements\<close>






definition fs_both :: fs where
  "fs_both = [([''home'', ''app''], Dir (Some 0)),
              ([''home'', ''app'', ''CLAUDE.md''], File (Some (0, 120)) (Some ''# App'')),
              ([''home'', ''app'', ''package.json''], File (Some (0, 60)) (Some ''{}''))]"

definition fs_skipped :: fs where
  "fs_skipped = [([''home'', ''backups''], Dir (Some 0)),
                 ([''home'', ''backups'', ''CLAUDE.md''], File (Some (0, 120)) (Some ''# B'')),
                 ([''home'', ''backups'', ''README.md''], File (Some (0, 10)) (Some ''x''))]"

definition fs_readme :: fs where
  "fs_readme = [([''home'', ''notes''], Dir (Some 0)),
                ([''home'', ''notes'', ''README.md''], File (Some (0, 10)) (Some ''x''))]"


definition path_recorded :: "lm_state \<Rightarrow> string \<Rightarrow> bool" where
  "path_recorded st pid =
     (case map_of (projects (project_registry st)) pid of
        None \<Rightarrow> True
      | Some info \<Rightarrow> (case map_of info ''path'' of Some (PStr _) \<Rightarrow> True | _ \<Rightarrow> False))"

definition os_base :: path where
  "os_base = [''home'', ''os'']"

definition demo_record :: pdict where
  "demo_record =
     [(''id'', PStr ''demo''), (''name'', PStr ''demo''), (''path'', PStr ''/home/os/demo''),
      (''discovered_at'', PIso 100), (''last_modified'', PIso 50), (''size_mb'', PFloat 0),
      (''file_count'', PInt 1), (''type'', PStr ''one-off''), (''activity_score'', PFloat 0),
      (''lifecycle_stage'', PStr ''should_be_archived'')]"

definition demo_registry :: registry_doc where
  "demo_registry =
     \<lparr>projects = [(''demo'', demo_record)], last_updated = 100,
      settings = Some [(''auto_archive_days'', PInt 30), (''cleanup_check_interval'', PInt 7),
                       (''backup_retention_days'', PInt 30)],
      discovery_settings = None\<rparr>"

definition fs_os :: fs where
  "fs_os = [([''home'', ''os''], Dir (Some 0)),
            ([''home'', ''os'', ''active''], Dir (Some 0)),
            ([''home'', ''os'', ''staging''], Dir (Some 0)),
            ([''home'', ''os'', ''archive''], Dir (Some 0)),
            ([''home'', ''os'', ''systems''], Dir (Some 0)),
            ([''home'', ''os'', ''demo''], Dir (Some 50)),
            ([''home'', ''os'', ''demo'', ''notes.txt''], File (Some (50, 12)) (Some ''x''))]"

definition st_demo :: lm_state where
  "st_demo = \<lparr>lm_fs = fs_os, project_registry = demo_registry,
              metadata_file = Some (Json demo_registry)\<rparr>"



definition st_corrupt :: lm_state where
  "st_corrupt = \<lparr>lm_fs = fs_os, project_registry = default_registry 0,
                 metadata_file = Some Corrupt\<rparr>"

definition ds_empty :: ds_state where
  "ds_empty = \<lparr>ds_fs = fs_os, registry = default_discovery_registry 0, registry_file = None,
               known_projects = {}, dashboard_sync_file = None, tracked_operations = 0\<rparr>"

definition persisted_stage :: "lm_state \<Rightarrow> string \<Rightarrow> pyval option" where
  "persisted_stage st pid =
     (case metadata_file st of
        Some (Json r) \<Rightarrow>
          (case map_of (projects r) pid of
             Some info \<Rightarrow> map_of info ''lifecycle_stage''
           | None \<Rightarrow> None)
      | _ \<Rightarrow> None)"

definition scanned :: "path \<Rightarrow> bool" where
  "scanned item = (\<not> prefix ''.'' (pname item)
                    \<and> pname item \<notin> set [''systems'', ''active'', ''staging'', ''archive''])"

definition stage_recorded :: "int \<Rightarrow> lm_state \<Rightarrow> path \<Rightarrow> bool" where
  "stage_recorded now st item =
     (case map_of (projects (project_registry st)) (pname item) of
        None \<Rightarrow> False
      | Some r \<Rightarrow>
          (case determine_lifecycle_stage (lm_fs st) now item of
             Inl e \<Rightarrow> False
           | Inr s \<Rightarrow> map_of r ''lifecycle_stage'' = Some (PStr s)))"

definition st_fresh :: lm_state where
  "st_fresh = \<lparr>lm_fs = fs_os, project_registry = default_registry 0,
               metadata_file = Some (Json (default_registry 0))\<rparr>"









text \<open>
  A directory that the full scan of the discovery service would hand to
  \<^verbatim>\<open>check_new_project\<close>: a child of \<open>w\<close> that is a directory and qualifies.
\<close>

definition candidate :: "fs \<Rightarrow> path \<Rightarrow> path \<Rightarrow> bool" where
  "candidate fs w item =
     (item \<in> set (children fs w) \<and> is_dir fs item \<and> is_project_directory fs item)"

text \<open>
  \<open>no_new_candidates base fs' fs\<close>: going from \<open>fs\<close> to \<open>fs'\<close> leaves the watched
  directories in place and creates no candidate under them. \<open>template_confined\<close> asks this
  of every application of the template generator, whose files go into the project
  directory and under \<^verbatim>\<open>systems/templates\<close>.
\<close>

definition no_new_candidates :: "path \<Rightarrow> fs \<Rightarrow> fs \<Rightarrow> bool" where
  "no_new_candidates base fs' fs =
     (\<forall>w\<in>set (watch_dirs base).
        exists_p fs' w = exists_p fs w \<and> is_dir fs' w = is_dir fs w
        \<and> (\<forall>item. candidate fs' w item \<longrightarrow> candidate fs w item))"

definition template_confined :: "(path \<Rightarrow> string \<Rightarrow> fs \<Rightarrow> fs) \<Rightarrow> path \<Rightarrow> bool" where
  "template_confined gen base = (\<forall>fs p ty. no_new_candidates base (gen p ty fs) fs)"

text \<open>Every candidate under an existing watched directory is a known project.\<close>

definition settled :: "path \<Rightarrow> ds_state \<Rightarrow> bool" where
  "settled base st =
     (\<forall>w\<in>set (watch_dirs base).
        exists_p (ds_fs st) w \<longrightarrow>
          is_dir (ds_fs st) w
          \<and> (\<forall>item. candidate (ds_fs st) w item \<longrightarrow> pname item \<in> known_projects st))"

text \<open>
  A generator that leaves the template selection prompt in the project directory, as
  \<^verbatim>\<open>apply_project_template\<close> does when several templates are available.
\<close>

definition gen_prompt :: "path \<Rightarrow> string \<Rightarrow> fs \<Rightarrow> fs" where
  "gen_prompt p ty fs =
     fs @ [(p @ [''.template-selection-prompt.md''], File (Some (0, 40)) (Some ty))]"

definition fs_watch :: fs where
  "fs_watch = [([''home'', ''os''], Dir (Some 0)),
               ([''home'', ''os'', ''active''], Dir (Some 0)),
               ([''home'', ''os'', ''staging''], Dir (Some 0)),
               ([''home'', ''os'', ''systems''], Dir (Some 0)),
               ([''home'', ''os'', ''systems'', ''secure-template-generator.py''],
                File (Some (0, 9)) (Some ''x'')),
               ([''home'', ''os'', ''tool''], Dir (Some 20)),
               ([''home'', ''os'', ''tool'', ''CLAUDE.md''], File (Some (20, 5)) (Some ''# Tool'')),
               ([''home'', ''os'', ''active'', ''app''], Dir (Some 30)),
               ([''home'', ''os'', ''active'', ''app'', ''package.json''],
                File (Some (30, 5)) (Some ''{}'')),
               ([''home'', ''os'', ''staging'', ''notes''], Dir (Some 40)),
               ([''home'', ''os'', ''staging'', ''notes'', ''README.md''],
                File (Some (40, 5)) (Some ''x'')),
               ([''home'', ''os'', ''staging'', ''notes'', ''.gitignore''],
                File (Some (40, 5)) (Some ''x''))]"

definition ds_watch :: ds_state where
  "ds_watch = \<lparr>ds_fs = fs_watch, registry = default_discovery_registry 0, registry_file = None,
               known_projects = {}, dashboard_sync_file = None, tracked_operations = 0\<rparr>"

definition recorded_field :: "registry_doc \<Rightarrow> string \<Rightarrow> string \<Rightarrow> pyval option" where
  "recorded_field reg pid key =
     (case map_of (projects reg) pid of Some info \<Rightarrow> map_of info key | None \<Rightarrow> None)"

section \<open>Paths\<close>

lemma pname_snoc: "pname (p @ [x]) = x"
  by (simp add: pname_def)

lemma parent_snoc: "parent (p @ [x]) = p"
  by (simp add: parent_def)

lemma is_file_exists: "is_file fs q \<Longrightarrow> exists_p fs q"
  by (auto simp: is_file_def exists_p_def split: option.splits)

lemma is_file_in_rglob:
  assumes "is_dir fs p" "is_file fs (p @ [x])"
  shows "p @ [x] \<in> set (filter (is_file fs) (rglob fs p))"
proof -
  from assms(2) obtain e where "map_of fs (p @ [x]) = Some e"
    by (auto simp: is_file_def split: option.splits)
  then have "p @ [x] \<in> fst ` set fs"
    by (metis map_of_eq_None_iff option.distinct(1))
  then show ?thesis using assms by (auto simp: rglob_def strict_prefix_def)
qed

section \<open>Type inference with both markers present\<close>

lemma lower_package_json: "lower ''package.json'' = ''package.json''"
  by (simp add: lower_def lower_char_def)

lemma classify_development:
  assumes "is_dir fs p" "is_file fs (p @ [''package.json''])"
  shows "classify_project_type fs p = ''development''"
proof -
  have "p @ [''package.json''] \<in> set (filter (is_file fs) (rglob fs p))"
    using assms by (rule is_file_in_rglob)
  then have "lower (pname (p @ [''package.json'']))
      \<in> set (map (\<lambda>f. lower (pname f)) (filter (is_file fs) (rglob fs p)))"
    by (metis (no_types, lifting) image_eqI list.set_map)
  then have "''package.json''
      \<in> set (map (\<lambda>f. lower (pname f)) (filter (is_file fs) (rglob fs p)))"
    by (simp only: pname_snoc lower_package_json)
  then show ?thesis
    by (simp add: classify_project_type_def Let_def)
qed

lemma fs_both_facts:
  "is_dir fs_both [''home'', ''app'']"
  "is_file fs_both ([''home'', ''app''] @ [''CLAUDE.md''])"
  "is_file fs_both ([''home'', ''app''] @ [''package.json''])"
  by (simp_all add: fs_both_def is_dir_def is_file_def)

text \<open>
  Claim C1, as the code has it. For a directory that holds both \<^verbatim>\<open>CLAUDE.md\<close> and
  \<^verbatim>\<open>package.json\<close>, the discovery service's \<^verbatim>\<open>analyze_project_quick\<close> tests the
  project-context marker first and assigns \<^verbatim>\<open>claude-project\<close>, never
  \<^verbatim>\<open>development-nodejs\<close>; it returns a record whenever the directory's metadata can
  be read. The lifecycle manager's \<^verbatim>\<open>classify_project_type\<close> tests the manifests
  first and assigns \<^verbatim>\<open>development\<close> to the same directory.
\<close>

theorem type_priority_by_script:
  assumes "is_dir fs p" "is_file fs (p @ [''CLAUDE.md''])" "is_file fs (p @ [''package.json''])"
  shows "quick_type fs p = ''claude-project''
     \<and> (\<forall>info. analyze_project_quick fs now p = Inr info
            \<longrightarrow> map_of info ''type'' = Some (PStr ''claude-project''))
     \<and> (\<forall>t. st_mtime fs p = Inr t \<longrightarrow> (\<exists>info. analyze_project_quick fs now p = Inr info))
     \<and> classify_project_type fs p = ''development''"
proof -
  have q: "quick_type fs p = ''claude-project''"
    using is_file_exists[OF assms(2)] by (simp add: quick_type_def)
  have a: "\<forall>info. analyze_project_quick fs now p = Inr info
            \<longrightarrow> map_of info ''type'' = Some (PStr ''claude-project'')"
    by (auto simp: analyze_project_quick_def q split: sum.splits)
  have b: "\<forall>t. st_mtime fs p = Inr t \<longrightarrow> (\<exists>info. analyze_project_quick fs now p = Inr info)"
    by (auto simp: analyze_project_quick_def)
  show ?thesis using q a b classify_development[OF assms(1,3)] by blast
qed

theorem type_priority_by_script_witness:
  "is_dir fs_both [''home'', ''app'']
   \<and> quick_type fs_both [''home'', ''app''] = ''claude-project''
   \<and> analyze_project_quick fs_both 5 [''home'', ''app''] \<noteq> Inl OSError
   \<and> classify_project_type fs_both [''home'', ''app''] = ''development''"
proof -
  have m: "st_mtime fs_both [''home'', ''app''] = Inr 0"
    by (simp add: st_mtime_def fs_both_def)
  from type_priority_by_script[OF fs_both_facts, of 5] m
  show ?thesis using fs_both_facts(1) by auto
qed

text \<open>
  Claim C1 as stated fails in \<^verbatim>\<open>classify_project_type\<close>: a directory with both files
  is classified \<^verbatim>\<open>development\<close>, not \<^verbatim>\<open>claude-project\<close>.
\<close>

theorem type_priority_counterexample:
  "is_dir fs_both [''home'', ''app'']
   \<and> is_file fs_both [''home'', ''app'', ''CLAUDE.md'']
   \<and> is_file fs_both [''home'', ''app'', ''package.json'']
   \<and> classify_project_type fs_both [''home'', ''app''] \<noteq> ''claude-project''"
  by code_simp

section \<open>Activity score\<close>









section \<open>Unreadable files during the walks\<close>








section \<open>Project qualification\<close>

text \<open>
  Claim C5, as the code has it. For a directory whose name is not in the skip set,
  \<^verbatim>\<open>is_project_directory\<close> answers no exactly when at most one weak marker and no key
  marker is present; with a key marker, or with two markers of any kind, it answers yes.
  A path that is no directory, and a directory named in the skip set, is rejected
  whatever it holds.
\<close>

theorem qualification_rule:
  assumes "is_dir fs p" "pname p \<notin> set skip_dirs"
  shows "(\<not> is_project_directory fs p) =
           (length (filter (\<lambda>i. exists_p fs (p @ [i])) weak_indicators) \<le> 1
            \<and> \<not> list_ex (\<lambda>i. exists_p fs (p @ [i])) key_indicators)
     \<and> is_project_directory fs p =
           (list_ex (\<lambda>i. exists_p fs (p @ [i])) key_indicators
            \<or> 2 \<le> length (filter (\<lambda>i. exists_p fs (p @ [i])) project_indicators))"
  using assms
  by (auto simp add: is_project_directory_def weak_indicators_def key_indicators_def
        project_indicators_def Let_def)

theorem qualification_rule_witness:
  "is_dir fs_readme [''home'', ''notes''] \<and> pname [''home'', ''notes''] \<notin> set skip_dirs
   \<and> \<not> is_project_directory fs_readme [''home'', ''notes'']
   \<and> length (filter (\<lambda>i. exists_p fs_readme ([''home'', ''notes''] @ [i])) weak_indicators) = 1"
proof -
  have a: "is_dir fs_readme [''home'', ''notes'']" by code_simp
  have b: "pname [''home'', ''notes''] \<notin> set skip_dirs" by code_simp
  have c: "length (filter (\<lambda>i. exists_p fs_readme ([''home'', ''notes''] @ [i])) weak_indicators) = 1"
    by code_simp
  have d: "\<not> list_ex (\<lambda>i. exists_p fs_readme ([''home'', ''notes''] @ [i])) key_indicators"
    by code_simp
  from qualification_rule[OF a b] c d show ?thesis using a b by simp
qed

text \<open>
  Claim C5 as stated fails for a directory named in the skip set: \<^verbatim>\<open>backups\<close> with a
  \<^verbatim>\<open>CLAUDE.md\<close> and a \<^verbatim>\<open>README.md\<close> is rejected.
\<close>

theorem qualification_counterexample:
  "is_dir fs_skipped [''home'', ''backups'']
   \<and> exists_p fs_skipped [''home'', ''backups'', ''CLAUDE.md'']
   \<and> exists_p fs_skipped [''home'', ''backups'', ''README.md'']
   \<and> \<not> is_project_directory fs_skipped [''home'', ''backups'']"
  by code_simp

section \<open>Moving a project\<close>

lemma target_dirs_None:
  "(map_of (target_dirs base) stage = None)
     = (stage \<notin> set [''active'', ''staging'', ''archived'', ''system''])"
  by (auto simp: target_dirs_def)

lemma save_keeps_fs: "lm_fs (save_project_registry now st) = lm_fs st"
  by (simp add: save_project_registry_def Let_def)



text \<open>
  Claim C10. When the project id is not in the registry, or the target stage is not one
  of \<^verbatim>\<open>active\<close>, \<^verbatim>\<open>staging\<close>, \<^verbatim>\<open>archived\<close>, \<^verbatim>\<open>system\<close>, \<^verbatim>\<open>move_project\<close>
  leaves the whole state as it was (no directory is moved, no record changes) and, the
  record of a known id holding its path, returns \<^verbatim>\<open>False\<close>.
\<close>

theorem move_rejects_unknown:
  assumes "pid \<notin> fst ` set (projects (project_registry st))
           \<or> stage \<notin> set [''active'', ''staging'', ''archived'', ''system'']"
  shows "snd (move_project mv base now pid stage st) = st
     \<and> (path_recorded st pid \<longrightarrow> move_project mv base now pid stage st = (Inr False, st))"
proof -
  from assms have "map_of (projects (project_registry st)) pid = None
      \<or> map_of (target_dirs base) stage = None"
    using target_dirs_None[of base stage] by (auto simp: map_of_eq_None_iff)
  then show ?thesis
    by (auto simp: move_project_def path_recorded_def bind_err_def dict_item_def as_path_def
             split: option.splits sum.splits pyval.splits)
qed

theorem move_rejects_unknown_witness:
  "move_project rename_tree os_base 200 ''ghost'' ''archived'' st_demo = (Inr False, st_demo)
   \<and> move_project rename_tree os_base 200 ''demo'' ''retired'' st_demo = (Inr False, st_demo)"
proof -
  have a: "''ghost'' \<notin> fst ` set (projects (project_registry st_demo))"
    by (simp add: st_demo_def demo_registry_def)
  have b: "''retired'' \<notin> set [''active'', ''staging'', ''archived'', ''system'']" by simp
  have c: "path_recorded st_demo ''ghost''" "path_recorded st_demo ''demo''"
    by (simp_all add: path_recorded_def st_demo_def demo_registry_def demo_record_def)
  from move_rejects_unknown[of "''ghost''" st_demo "''archived''" rename_tree os_base 200] a c
  have r1: "move_project rename_tree os_base 200 ''ghost'' ''archived'' st_demo = (Inr False, st_demo)"
    by blast
  from move_rejects_unknown[of "''demo''" st_demo "''retired''" rename_tree os_base 200] b c
  have r2: "move_project rename_tree os_base 200 ''demo'' ''retired'' st_demo = (Inr False, st_demo)"
    by blast
  show ?thesis using r1 r2 by blast
qed

section \<open>Loading the registry\<close>

text \<open>
  Claim C7, as the code has it. When the registry file is missing, loading gives a fresh
  default document with no project: \<^verbatim>\<open>load_project_registry\<close> of the lifecycle
  manager writes it to the file at once, \<^verbatim>\<open>load_registry\<close> of the discovery service
  keeps it in memory and leaves the file missing. When the file's text is not JSON, both
  loaders raise the error of \<^verbatim>\<open>json.load\<close>: no default is created and nothing is
  written.
\<close>

theorem registry_loading:
  "(metadata_file st = None \<longrightarrow>
      load_project_registry now st =
        Inr (st\<lparr>project_registry := default_registry now,
                metadata_file := Some (Json (default_registry now))\<rparr>))
   \<and> (metadata_file st = Some Corrupt \<longrightarrow> load_project_registry now st = Inl JSONDecodeError)
   \<and> (registry_file ds = None \<longrightarrow>
        load_registry now ds = Inr (ds\<lparr>registry := default_discovery_registry now\<rparr>))
   \<and> (registry_file ds = Some Corrupt \<longrightarrow> load_registry now ds = Inl JSONDecodeError)"
  by (simp add: load_project_registry_def load_registry_def save_project_registry_def
        default_registry_def Let_def)

theorem registry_loading_witness:
  "load_project_registry 9 (st_demo\<lparr>metadata_file := None\<rparr>) =
     Inr (st_demo\<lparr>project_registry := default_registry 9,
                  metadata_file := Some (Json (default_registry 9))\<rparr>)
   \<and> projects (default_registry 9) = []
   \<and> load_registry 9 ds_empty = Inr (ds_empty\<lparr>registry := default_discovery_registry 9\<rparr>)
   \<and> registry_file (ds_empty\<lparr>registry := default_discovery_registry 9\<rparr>) = None"
  using registry_loading[of "st_demo\<lparr>metadata_file := None\<rparr>" 9 ds_empty]
  by (simp add: default_registry_def ds_empty_def)

text \<open>
  Claim C7 as stated fails for a corrupt file: both loaders raise instead of starting
  from an empty registry.
\<close>

theorem registry_loading_counterexample:
  "metadata_file st_corrupt = Some Corrupt
   \<and> load_project_registry 0 st_corrupt = Inl JSONDecodeError
   \<and> load_registry 0 (ds_empty\<lparr>registry_file := Some Corrupt\<rparr>) = Inl JSONDecodeError"
  by (simp add: st_corrupt_def load_project_registry_def load_registry_def)

section \<open>Lifecycle stages written to the registry\<close>

lemma dict_update_other:
  "k \<notin> fst ` set e \<Longrightarrow> map_of (dict_update d e) k = map_of d k"
  unfolding dict_update_def
  by (induction e arbitrary: d) (auto simp: update_conv')

lemma dict_update_later:
  "map_of e k = Some v \<Longrightarrow> distinct (map fst e) \<Longrightarrow> map_of (dict_update d e) k = Some v"
  unfolding dict_update_def
proof (induction e arbitrary: d)
  case Nil
  then show ?case by simp
next
  case (Cons a e)
  obtain k' v' where a: "a = (k', v')" by (cases a)
  show ?case
  proof (cases "k' = k")
    case True
    with Cons.prems a have v: "v' = v" and nk: "k \<notin> fst ` set e" by auto
    have "map_of (fold (\<lambda>(k, v). AList.update k v) e (AList.update k v d)) k
        = map_of (AList.update k v d) k"
      using dict_update_other[OF nk, of "AList.update k v d"] by (simp add: dict_update_def)
    then show ?thesis using a True v by (simp add: update_conv')
  next
    case False
    with Cons.prems a have "map_of e k = Some v" "distinct (map fst e)" by auto
    from Cons.IH[OF this] show ?thesis using a by simp
  qed
qed

lemma claude_metadata_keys: "fst ` set (claude_metadata c) \<subseteq> {''title'', ''tags''}"
  by (auto simp: claude_metadata_def Let_def dom_update split: list.splits option.splits if_splits)

lemma metadata_keys:
  "fst ` set (extract_project_metadata jl fs p) \<subseteq> {''title'', ''tags'', ''description''}"
proof -
  define m1 where "m1 = (if exists_p fs (p @ [''CLAUDE.md''])
                then (case read_text fs (p @ [''CLAUDE.md'']) of
                        Inl e \<Rightarrow> []
                      | Inr content \<Rightarrow> claude_metadata content)
                else [])"
  have "m1 = [] \<or> (\<exists>c. m1 = claude_metadata c)"
    unfolding m1_def by (cases "read_text fs (p @ [''CLAUDE.md''])") auto
  then have m: "fst ` set m1 \<subseteq> {''title'', ''tags'', ''description''}"
    using claude_metadata_keys by auto
  have "extract_project_metadata jl fs p = m1
      \<or> (\<exists>a b. extract_project_metadata jl fs p
            = AList.update ''description'' a (AList.update ''title'' b m1))"
    unfolding extract_project_metadata_def m1_def[symmetric] Let_def
    by (cases "read_text fs (p @ [''package.json''])";
        cases "jl (projr (read_text fs (p @ [''package.json''])))") auto
  then show ?thesis using m by (elim disjE exE) (simp_all add: dom_update)
qed

lemma analyze_project_fields:
  assumes "analyze_project jl fs now p = Inr info"
  shows "map_of info ''id'' = Some (PStr (pname p))"
    and "\<exists>s. determine_lifecycle_stage fs now p = Inr s
           \<and> map_of info ''lifecycle_stage'' = Some (PStr s)"
proof -
  have k: "''id'' \<notin> fst ` set (extract_project_metadata jl fs p)"
    "''lifecycle_stage'' \<notin> fst ` set (extract_project_metadata jl fs p)"
    using metadata_keys[of jl fs p] by auto
  from assms obtain mt sc s where
    i: "info = dict_update
          [(''id'', PStr (pname p)), (''name'', PStr (pname p)), (''path'', PStr (path_str p)),
           (''discovered_at'', PIso now), (''last_modified'', PIso mt),
           (''size_mb'', PFloat (get_directory_size fs p)),
           (''file_count'', PInt (int (length (rglob fs p)))),
           (''type'', PStr (classify_project_type fs p)),
           (''activity_score'', PFloat sc), (''lifecycle_stage'', PStr s)]
          (extract_project_metadata jl fs p)"
    and s: "determine_lifecycle_stage fs now p = Inr s"
    by (auto simp: analyze_project_def split: sum.splits)
  show "map_of info ''id'' = Some (PStr (pname p))"
    unfolding i by (simp add: dict_update_other[OF k(1)])
  show "\<exists>s. determine_lifecycle_stage fs now p = Inr s
           \<and> map_of info ''lifecycle_stage'' = Some (PStr s)"
    unfolding i using s by (simp add: dict_update_other[OF k(2)])
qed

lemma determine_stage_cases:
  "determine_lifecycle_stage fs now p = Inr s \<Longrightarrow>
     (if pname (parent p) \<in> set [''active'', ''staging'', ''archive'', ''systems'']
      then map_of [(''active'', ''active''), (''staging'', ''staging''),
                   (''archive'', ''archived''), (''systems'', ''system'')] (pname (parent p)) = Some s
      else s \<in> set [''should_be_active'', ''should_be_staging'', ''should_be_archived''])"
  by (auto simp: determine_lifecycle_stage_def Let_def split: if_splits sum.splits)

lemma determine_stage_in_root:
  "map_of (target_dirs base) stage = Some d \<Longrightarrow>
   determine_lifecycle_stage fs now (d @ [pid]) = Inr stage"
  by (auto simp: target_dirs_def determine_lifecycle_stage_def parent_def pname_def Let_def
           split: if_splits)

lemma move_success:
  assumes "move_project mv base now pid stage st = (Inr True, st')"
  shows "\<exists>info d. map_of (target_dirs base) stage = Some d
           \<and> map_of (projects (project_registry st')) pid = Some info
           \<and> map_of info ''lifecycle_stage'' = Some (PStr stage)
           \<and> map_of info ''path'' = Some (PStr (path_str (d @ [pid])))
           \<and> metadata_file st' = Some (Json (project_registry st'))"
  using assms
  by (auto simp: move_project_def Let_def bind_err_def save_project_registry_def update_conv'
           split: option.splits sum.splits prod.splits if_splits)

lemma discover_loop_fs:
  "discover_loop jl now items acc st = (r, st') \<Longrightarrow>
     lm_fs st' = lm_fs st \<and> metadata_file st' = metadata_file st"
proof (induction items arbitrary: acc st)
  case Nil
  then show ?case by simp
next
  case (Cons item rest)
  show ?case
  proof (cases "is_dir (lm_fs st) item \<and> \<not> prefix ''.'' (pname item)
         \<and> pname item \<notin> set [''systems'', ''active'', ''staging'', ''archive'']")
    case False
    with Cons.prems have "discover_loop jl now rest acc st = (r, st')" by auto
    from Cons.IH[OF this] show ?thesis .
  next
    case True
    show ?thesis
    proof (cases "analyze_project jl (lm_fs st) now item")
      case (Inl e)
      with True Cons.prems show ?thesis by auto
    next
      case (Inr info)
      from analyze_project_fields(1)[OF Inr] have idv: "map_of info ''id'' = Some (PStr (pname item))" .
      let ?reg = "project_registry st"
      let ?ps = "(case map_of (projects ?reg) (pname item) of
                    None \<Rightarrow> AList.update (pname item) info (projects ?reg)
                  | Some old \<Rightarrow> AList.update (pname item) (dict_update old info) (projects ?reg))"
      let ?st1 = "st\<lparr>project_registry := ?reg\<lparr>projects := ?ps\<rparr>\<rparr>"
      from True Inr idv Cons.prems
      have "discover_loop jl now rest (acc @ [info]) ?st1 = (r, st')"
        by (simp add: Let_def)
      from Cons.IH[OF this] show ?thesis by simp
    qed
  qed
qed


lemma dict_update_distinct:
  "distinct (map fst d) \<Longrightarrow> distinct (map fst (dict_update d e))"
  unfolding dict_update_def
  by (induction e arbitrary: d) (auto simp: distinct_update)

lemma analyze_project_distinct:
  "analyze_project jl fs now p = Inr info \<Longrightarrow> distinct (map fst info)"
  by (auto simp: analyze_project_def split: sum.splits intro!: dict_update_distinct)

lemma same_parent_same_name:
  "i \<noteq> [] \<Longrightarrow> j \<noteq> [] \<Longrightarrow> butlast i = butlast j \<Longrightarrow> pname i = pname j \<Longrightarrow> i = j"
  by (metis append_butlast_last_id pname_def)

lemma discover_step_records:
  assumes a: "analyze_project jl (lm_fs st) now j = Inr info"
  defines "ps \<equiv> (case map_of (projects (project_registry st)) (pname j) of
                    None \<Rightarrow> AList.update (pname j) info (projects (project_registry st))
                  | Some old \<Rightarrow> AList.update (pname j) (dict_update old info)
                                 (projects (project_registry st)))"
  defines "st1 \<equiv> st\<lparr>project_registry := (project_registry st)\<lparr>projects := ps\<rparr>\<rparr>"
  shows "stage_recorded now st1 j"
    and "pname i \<noteq> pname j \<Longrightarrow> stage_recorded now st i \<Longrightarrow> stage_recorded now st1 i"
proof -
  from analyze_project_fields(2)[OF a] obtain s where
    s: "determine_lifecycle_stage (lm_fs st) now j = Inr s"
       "map_of info ''lifecycle_stage'' = Some (PStr s)" by blast
  have d: "distinct (map fst info)" using a by (rule analyze_project_distinct)
  have "\<exists>r. map_of ps (pname j) = Some r \<and> map_of r ''lifecycle_stage'' = Some (PStr s)"
    unfolding ps_def using s(2) dict_update_later[OF s(2) d]
    by (cases "map_of (projects (project_registry st)) (pname j)") (auto simp: update_conv')
  then show "stage_recorded now st1 j"
    using s(1) by (auto simp: stage_recorded_def st1_def)
  assume n: "pname i \<noteq> pname j" and r: "stage_recorded now st i"
  have "map_of ps (pname i) = map_of (projects (project_registry st)) (pname i)"
    unfolding ps_def using n
    by (cases "map_of (projects (project_registry st)) (pname j)") (auto simp: update_conv')
  then show "stage_recorded now st1 i"
    using r by (auto simp: stage_recorded_def st1_def split: option.splits)
qed

lemma discover_loop_records:
  assumes "discover_loop jl now items acc st = (Inr ds, st')"
    and "\<forall>i\<in>set items \<union> S. i \<noteq> [] \<and> butlast i = scan_root"
    and "\<forall>i\<in>S. stage_recorded now st i"
  shows "\<forall>i\<in>S \<union> {i \<in> set items. is_dir (lm_fs st) i \<and> scanned i}. stage_recorded now st' i"
  using assms
proof (induction items arbitrary: acc st S)
  case Nil
  then show ?case by simp
next
  case (Cons j rest)
  show ?case
  proof (cases "is_dir (lm_fs st) j \<and> scanned j")
    case False
    with Cons.prems(1) have l: "discover_loop jl now rest acc st = (Inr ds, st')"
      by (auto simp: scanned_def)
    have "\<forall>i\<in>set rest \<union> S. i \<noteq> [] \<and> butlast i = scan_root" using Cons.prems(2) by auto
    from Cons.IH[OF l this Cons.prems(3)] False show ?thesis by auto
  next
    case True
    then have cond: "is_dir (lm_fs st) j \<and> \<not> prefix ''.'' (pname j)
         \<and> pname j \<notin> set [''systems'', ''active'', ''staging'', ''archive'']"
      by (simp add: scanned_def)
    show ?thesis
    proof (cases "analyze_project jl (lm_fs st) now j")
      case (Inl e)
      with cond Cons.prems(1) show ?thesis by auto
    next
      case (Inr info)
      from analyze_project_fields(1)[OF Inr]
      have idv: "map_of info ''id'' = Some (PStr (pname j))" .
      let ?reg = "project_registry st"
      let ?ps = "(case map_of (projects ?reg) (pname j) of
                    None \<Rightarrow> AList.update (pname j) info (projects ?reg)
                  | Some old \<Rightarrow> AList.update (pname j) (dict_update old info) (projects ?reg))"
      let ?st1 = "st\<lparr>project_registry := ?reg\<lparr>projects := ?ps\<rparr>\<rparr>"
      from cond Inr idv Cons.prems(1)
      have l: "discover_loop jl now rest (acc @ [info]) ?st1 = (Inr ds, st')"
        by (simp add: Let_def)
      have fs1: "lm_fs ?st1 = lm_fs st" by simp
      have p2: "\<forall>i\<in>set rest \<union> (insert j S). i \<noteq> [] \<and> butlast i = scan_root"
        using Cons.prems(2) by auto
      have p3: "\<forall>i\<in>insert j S. stage_recorded now ?st1 i"
      proof
        fix i assume i: "i \<in> insert j S"
        show "stage_recorded now ?st1 i"
        proof (cases "pname i = pname j")
          case True
          have "i \<noteq> []" "j \<noteq> []" "butlast i = butlast j" using i Cons.prems(2) by auto
          then have "i = j" using True by (rule same_parent_same_name)
          then show ?thesis using discover_step_records(1)[OF Inr] by simp
        next
          case False
          then have "i \<in> S" using i by auto
          then have "stage_recorded now st i" using Cons.prems(3) by blast
          from discover_step_records(2)[OF Inr False this] show ?thesis .
        qed
      qed
      from Cons.IH[OF l p2 p3]
      have "\<forall>i\<in>insert j S \<union> {i \<in> set rest. is_dir (lm_fs st) i \<and> scanned i}.
               stage_recorded now st' i"
        by (simp only: fs1)
      then show ?thesis by auto
    qed
  qed
qed

lemma save_stage_recorded:
  "stage_recorded now' (save_project_registry now st) i = stage_recorded now' st i"
  by (auto simp: stage_recorded_def save_project_registry_def Let_def split: option.splits)

lemma discover_projects_records:
  assumes "discover_projects jl now scan_root st = (Inr ds, st')"
  shows "metadata_file st' = Some (Json (project_registry st'))
     \<and> lm_fs st' = lm_fs st
     \<and> (\<forall>i\<in>set (children (lm_fs st) scan_root).
           is_dir (lm_fs st) i \<and> scanned i \<longrightarrow> stage_recorded now st' i)"
proof -
  from assms obtain st1 where
    l: "discover_loop jl now (children (lm_fs st) scan_root) [] st = (Inr ds, st1)"
    and s: "st' = save_project_registry now st1"
    by (auto simp: discover_projects_def iterdir_def split: if_splits sum.splits prod.splits)
  have c: "\<forall>i\<in>set (children (lm_fs st) scan_root) \<union> {}. i \<noteq> [] \<and> butlast i = scan_root"
    by (auto simp: children_def)
  from discover_loop_records[OF l c]
  have r: "\<forall>i\<in>{i \<in> set (children (lm_fs st) scan_root). is_dir (lm_fs st) i \<and> scanned i}.
            stage_recorded now st1 i" by simp
  from discover_loop_fs[OF l] have f: "lm_fs st1 = lm_fs st" by simp
  show ?thesis
    using r f by (auto simp: s save_stage_recorded) (simp_all add: save_project_registry_def Let_def)
qed

text \<open>
  Claim C6, as the code has it. \<^verbatim>\<open>determine_lifecycle_stage\<close> gives the confirmed
  stage of the parent directory when that is \<^verbatim>\<open>active\<close>, \<^verbatim>\<open>staging\<close>, \<^verbatim>\<open>archive\<close>
  or \<^verbatim>\<open>systems\<close>, and otherwise one of the three \<^verbatim>\<open>should_be_*\<close> values.
  \<^verbatim>\<open>discover_projects\<close> stores that value as \<^verbatim>\<open>lifecycle_stage\<close> of every directory
  it scans and writes the registry file, so a \<^verbatim>\<open>should_be_*\<close> value is persisted for
  any project whose parent is not a stage root. A successful \<^verbatim>\<open>move_project\<close> replaces
  it by the requested confirmed stage and sets the path to the stage root joined with
  the id, for which \<^verbatim>\<open>determine_lifecycle_stage\<close> gives that same stage.
\<close>

theorem stage_recording:
  "(\<forall>s. determine_lifecycle_stage fs now p = Inr s \<longrightarrow>
      (if pname (parent p) \<in> set [''active'', ''staging'', ''archive'', ''systems'']
       then map_of [(''active'', ''active''), (''staging'', ''staging''),
                    (''archive'', ''archived''), (''systems'', ''system'')] (pname (parent p))
            = Some s
       else s \<in> set [''should_be_active'', ''should_be_staging'', ''should_be_archived'']))
   \<and> (\<forall>ds st'. discover_projects jl now scan_root st = (Inr ds, st') \<longrightarrow>
         metadata_file st' = Some (Json (project_registry st'))
         \<and> (\<forall>i\<in>set (children (lm_fs st) scan_root).
               is_dir (lm_fs st) i \<and> scanned i \<longrightarrow> stage_recorded now st' i))
   \<and> (\<forall>st'. move_project mv base now pid stage st = (Inr True, st') \<longrightarrow>
         (\<exists>info d. map_of (target_dirs base) stage = Some d
            \<and> map_of (projects (project_registry st')) pid = Some info
            \<and> map_of info ''lifecycle_stage'' = Some (PStr stage)
            \<and> map_of info ''path'' = Some (PStr (path_str (d @ [pid])))
            \<and> metadata_file st' = Some (Json (project_registry st'))
            \<and> determine_lifecycle_stage (lm_fs st') now (d @ [pid]) = Inr stage))"
proof (intro conjI allI impI)
  fix s assume "determine_lifecycle_stage fs now p = Inr s"
  then show "if pname (parent p) \<in> set [''active'', ''staging'', ''archive'', ''systems'']
       then map_of [(''active'', ''active''), (''staging'', ''staging''),
                    (''archive'', ''archived''), (''systems'', ''system'')] (pname (parent p))
            = Some s
       else s \<in> set [''should_be_active'', ''should_be_staging'', ''should_be_archived'']"
    by (rule determine_stage_cases)
next
  fix ds st' assume a: "discover_projects jl now scan_root st = (Inr ds, st')"
  from discover_projects_records[OF a]
  show "metadata_file st' = Some (Json (project_registry st'))" by blast
  from discover_projects_records[OF a]
  show "\<forall>i\<in>set (children (lm_fs st) scan_root).
               is_dir (lm_fs st) i \<and> scanned i \<longrightarrow> stage_recorded now st' i" by blast
next
  fix st' assume a: "move_project mv base now pid stage st = (Inr True, st')"
  from move_success[OF a] obtain info d where
    m: "map_of (target_dirs base) stage = Some d"
       "map_of (projects (project_registry st')) pid = Some info"
       "map_of info ''lifecycle_stage'' = Some (PStr stage)"
       "map_of info ''path'' = Some (PStr (path_str (d @ [pid])))"
       "metadata_file st' = Some (Json (project_registry st'))" by blast
  from determine_stage_in_root[OF m(1)]
  have "determine_lifecycle_stage (lm_fs st') now (d @ [pid]) = Inr stage" .
  with m show "\<exists>info d. map_of (target_dirs base) stage = Some d
            \<and> map_of (projects (project_registry st')) pid = Some info
            \<and> map_of info ''lifecycle_stage'' = Some (PStr stage)
            \<and> map_of info ''path'' = Some (PStr (path_str (d @ [pid])))
            \<and> metadata_file st' = Some (Json (project_registry st'))
            \<and> determine_lifecycle_stage (lm_fs st') now (d @ [pid]) = Inr stage" by blast
qed

theorem stage_recording_witness:
  "stage_recorded 9000000000000
     (snd (discover_projects (\<lambda>t. None) 9000000000000 os_base st_fresh)) [''home'', ''os'', ''demo'']
   \<and> determine_lifecycle_stage fs_os 9000000000000 [''home'', ''os'', ''demo'']
        = Inr ''should_be_archived''
   \<and> determine_lifecycle_stage
        (lm_fs (snd (move_project rename_tree os_base 9000000000000 ''demo'' ''archived'' st_demo)))
        9000000000000 [''home'', ''os'', ''archive'', ''demo''] = Inr ''archived''"
proof -
  let ?T = "9000000000000 :: int"
  let ?d = "discover_projects (\<lambda>t. None) ?T os_base st_fresh"
  let ?m = "move_project rename_tree os_base ?T ''demo'' ''archived'' st_demo"
  have d1: "fst ?d = Inr (projr (fst ?d))" by code_simp
  then have d2: "?d = (Inr (projr (fst ?d)), snd ?d)" by (metis prod.collapse)
  have c1: "[''home'', ''os'', ''demo''] \<in> set (children (lm_fs st_fresh) os_base)" by code_simp
  have c2: "is_dir (lm_fs st_fresh) [''home'', ''os'', ''demo''] \<and> scanned [''home'', ''os'', ''demo'']"
    by code_simp
  have m1: "fst ?m = Inr True" by code_simp
  then have m2: "?m = (Inr True, snd ?m)" by (metis prod.collapse)
  have t: "map_of (target_dirs os_base) ''archived'' = Some [''home'', ''os'', ''archive'']"
    by code_simp
  have s: "determine_lifecycle_stage fs_os ?T [''home'', ''os'', ''demo''] = Inr ''should_be_archived''"
    by code_simp
  note inst1 = stage_recording[of fs_os ?T "[''home'', ''os'', ''demo'']" "\<lambda>t. None" os_base
      st_fresh rename_tree os_base "''demo''" "''archived''"]
  note inst2 = stage_recording[of fs_os ?T "[''home'', ''os'', ''demo'']" "\<lambda>t. None" os_base
      st_demo rename_tree os_base "''demo''" "''archived''"]
  from inst1 d2 c1 c2
  have r1: "stage_recorded ?T (snd ?d) [''home'', ''os'', ''demo'']" by blast
  from inst2 m2 t
  have r2: "determine_lifecycle_stage (lm_fs (snd ?m)) ?T ([''home'', ''os'', ''archive''] @ [''demo''])
      = Inr ''archived''" by (metis option.inject)
  show ?thesis using r1 r2 s by simp
qed

text \<open>
  Claim C6 as stated fails: one run of \<^verbatim>\<open>discover_projects\<close>, with no move, writes
  \<^verbatim>\<open>should_be_archived\<close> to the registry file as the stage of a project directly
  under the base directory.
\<close>

theorem stage_recording_counterexample:
  "pname (parent [''home'', ''os'', ''demo'']) = ''os''
   \<and> persisted_stage st_fresh ''demo'' = None
   \<and> persisted_stage (snd (discover_projects (\<lambda>t. None) 9000000000000 os_base st_fresh)) ''demo''
        = Some (PStr ''should_be_archived'')"
  by code_simp

section \<open>Suggestions for entries whose directory is gone\<close>

















section \<open>The full scan of the discovery service run twice\<close>

lemma no_new_candidates_refl: "no_new_candidates base fs fs"
  by (simp add: no_new_candidates_def)

lemma no_new_candidates_trans:
  "no_new_candidates base fs3 fs2 \<Longrightarrow> no_new_candidates base fs2 fs1
     \<Longrightarrow> no_new_candidates base fs3 fs1"
  by (simp add: no_new_candidates_def)

lemma apply_template_confined:
  "template_confined gen base \<Longrightarrow>
   no_new_candidates base (apply_template_inheritance gen base fs p) fs"
  by (simp add: apply_template_inheritance_def template_confined_def no_new_candidates_refl)

lemma save_registry_fs:
  "ds_fs (save_registry now st) = ds_fs st"
  "known_projects (save_registry now st) = known_projects st"
  by (simp_all add: save_registry_def Let_def)

lemma queue_dashboard_sync_fs:
  "ds_fs (queue_dashboard_sync now info st) = ds_fs st"
  "known_projects (queue_dashboard_sync now info st) = known_projects st"
  by (auto simp: queue_dashboard_sync_def split: option.splits sync_file.splits pyval.splits)

lemma register_project_effect:
  "register_project now p st = (r, st') \<Longrightarrow>
     ds_fs st' = ds_fs st
     \<and> known_projects st \<subseteq> known_projects st'
     \<and> (\<forall>b. r = Inr b \<longrightarrow> pname p \<in> known_projects st')"
  by (auto simp: register_project_def Let_def save_registry_fs queue_dashboard_sync_fs
           split: sum.splits)

lemma check_new_project_effect:
  assumes "template_confined gen base" "check_new_project gen base now p st = (r, st')"
  shows "no_new_candidates base (ds_fs st') (ds_fs st)"
    and "known_projects st \<subseteq> known_projects st'"
    and "\<And>b. r = Inr b \<Longrightarrow> is_project_directory (ds_fs st') p \<Longrightarrow> pname p \<in> known_projects st'"
proof -
  let ?tpl = "is_dir (ds_fs st) p \<and> pname (parent p) \<in> set [''active'', ''staging'', ''archive'']
         \<and> pname p \<notin> known_projects st"
  let ?st1 = "st\<lparr>ds_fs := apply_template_inheritance gen base (ds_fs st) p\<rparr>"
  have t: "no_new_candidates base (ds_fs ?st1) (ds_fs st)"
    using apply_template_confined[OF assms(1)] by simp
  define T where "T = ?tpl"
  have u: "check_new_project gen base now p st =
      (if T then (if is_project_directory (ds_fs ?st1) p then register_project now p ?st1
                  else (Inr False, ?st1))
       else if \<not> is_project_directory (ds_fs st) p then (Inr False, st)
       else if pname p \<in> known_projects st then (Inr False, st)
       else register_project now p st)"
    unfolding T_def by (simp only: check_new_project_def Let_def)
  consider (a) "is_project_directory (ds_fs ?st1) p" "register_project now p ?st1 = (r, st')"
    | (b) "\<not> is_project_directory (ds_fs ?st1) p" "r = Inr False" "st' = ?st1"
    | (c) "\<not> is_project_directory (ds_fs st) p" "r = Inr False" "st' = st"
    | (d) "pname p \<in> known_projects st" "r = Inr False" "st' = st"
    | (e) "register_project now p st = (r, st')"
  proof (cases T)
    case True
    show ?thesis
    proof (cases "is_project_directory (ds_fs ?st1) p")
      case True
      with \<open>T\<close> u assms(2) have "register_project now p ?st1 = (r, st')" by simp
      with True show ?thesis by (rule a)
    next
      case False
      with \<open>T\<close> u assms(2) have "r = Inr False" "st' = ?st1" by simp_all
      with False show ?thesis by (rule b)
    qed
  next
    case False
    show ?thesis
    proof (cases "is_project_directory (ds_fs st) p")
      case np: False
      with False u assms(2) have "r = Inr False" "st' = st" by simp_all
      with np show ?thesis by (rule c)
    next
      case ip: True
      show ?thesis
      proof (cases "pname p \<in> known_projects st")
        case True
        with False ip u assms(2) have "r = Inr False" "st' = st" by simp_all
        with True show ?thesis by (rule d)
      next
        case nk: False
        with False ip u assms(2) have "register_project now p st = (r, st')" by simp
        then show ?thesis by (rule e)
      qed
    qed
  qed
  then have "no_new_candidates base (ds_fs st') (ds_fs st)
      \<and> known_projects st \<subseteq> known_projects st'
      \<and> (\<forall>b. r = Inr b \<longrightarrow> is_project_directory (ds_fs st') p \<longrightarrow> pname p \<in> known_projects st')"
  proof cases
    case a
    from register_project_effect[OF a(2)] t show ?thesis by auto
  next
    case b
    with t show ?thesis by auto
  next
    case c
    then show ?thesis by (auto simp: no_new_candidates_refl)
  next
    case d
    then show ?thesis by (auto simp: no_new_candidates_refl)
  next
    case e
    from register_project_effect[OF e(1)] show ?thesis by (auto simp: no_new_candidates_refl)
  qed
  then show "no_new_candidates base (ds_fs st') (ds_fs st)"
    and "known_projects st \<subseteq> known_projects st'"
    and "\<And>b. r = Inr b \<Longrightarrow> is_project_directory (ds_fs st') p \<Longrightarrow> pname p \<in> known_projects st'"
    by blast+
qed

lemma candidate_back:
  "no_new_candidates base fs' fs \<Longrightarrow> w \<in> set (watch_dirs base) \<Longrightarrow> candidate fs' w item
     \<Longrightarrow> candidate fs w item"
  by (simp add: no_new_candidates_def)

lemma scan_items_effect:
  assumes "template_confined gen base" "w \<in> set (watch_dirs base)"
    and "scan_items gen base now items d st = (Inr n, st')"
  shows "no_new_candidates base (ds_fs st') (ds_fs st)
     \<and> known_projects st \<subseteq> known_projects st'
     \<and> (\<forall>item\<in>set items. candidate (ds_fs st') w item \<longrightarrow> pname item \<in> known_projects st')"
  using assms(3)
proof (induction items arbitrary: d st)
  case Nil
  then show ?case by (simp add: no_new_candidates_refl)
next
  case (Cons j rest)
  show ?case
  proof (cases "is_dir (ds_fs st) j \<and> is_project_directory (ds_fs st) j")
    case False
    with Cons.prems have l: "scan_items gen base now rest d st = (Inr n, st')" by auto
    note ih = Cons.IH[OF l]
    have "\<not> candidate (ds_fs st') w j"
    proof
      assume "candidate (ds_fs st') w j"
      then have "candidate (ds_fs st) w j" using ih assms(2) candidate_back by blast
      with False show False by (simp add: candidate_def)
    qed
    with ih show ?thesis by auto
  next
    case True
    obtain r st1 where c: "check_new_project gen base now j st = (r, st1)" by (cases "check_new_project gen base now j st")
    with True Cons.prems obtain b where r: "r = Inr b"
      and l: "scan_items gen base now rest (if b then d + 1 else d) st1 = (Inr n, st')"
      by (auto split: sum.splits)
    note ih = Cons.IH[OF l]
    note ce = check_new_project_effect[OF assms(1) c]
    have k: "candidate (ds_fs st') w j \<longrightarrow> pname j \<in> known_projects st'"
    proof
      assume "candidate (ds_fs st') w j"
      then have "candidate (ds_fs st1) w j" using ih assms(2) candidate_back by blast
      then have "is_project_directory (ds_fs st1) j" by (simp add: candidate_def)
      from ce(3)[OF r this] ih show "pname j \<in> known_projects st'" by auto
    qed
    have "no_new_candidates base (ds_fs st') (ds_fs st)"
      using ih ce(1) no_new_candidates_trans by blast
    moreover have "known_projects st \<subseteq> known_projects st'" using ih ce(2) by auto
    ultimately show ?thesis using ih k by auto
  qed
qed


lemma scan_dirs_effect:
  assumes "template_confined gen base"
    and "scan_dirs gen base now ws d st = (Inr n, st')"
    and "set ws \<subseteq> set (watch_dirs base)"
  shows "no_new_candidates base (ds_fs st') (ds_fs st)
     \<and> known_projects st \<subseteq> known_projects st'
     \<and> (\<forall>w\<in>set ws. exists_p (ds_fs st') w \<longrightarrow>
           is_dir (ds_fs st') w
           \<and> (\<forall>item. candidate (ds_fs st') w item \<longrightarrow> pname item \<in> known_projects st'))"
  using assms(2,3)
proof (induction ws arbitrary: d st)
  case Nil
  then show ?case by (simp add: no_new_candidates_refl)
next
  case (Cons w rest)
  from Cons.prems(2) have w: "w \<in> set (watch_dirs base)"
    and rest: "set rest \<subseteq> set (watch_dirs base)" by auto
  show ?case
  proof (cases "exists_p (ds_fs st) w")
    case False
    with Cons.prems(1) have l: "scan_dirs gen base now rest d st = (Inr n, st')" by simp
    note ih = Cons.IH[OF l rest]
    from ih w have "exists_p (ds_fs st') w = exists_p (ds_fs st) w"
      by (simp add: no_new_candidates_def)
    with False ih show ?thesis by auto
  next
    case True
    with Cons.prems(1) have dir: "is_dir (ds_fs st) w"
      by (auto simp: iterdir_def split: if_splits)
    obtain r st1 where si: "scan_items gen base now (children (ds_fs st) w) d st = (r, st1)"
      by (cases "scan_items gen base now (children (ds_fs st) w) d st")
    with True dir Cons.prems(1) obtain d' where r: "r = Inr d'"
      and l: "scan_dirs gen base now rest d' st1 = (Inr n, st')"
      by (auto simp: iterdir_def split: sum.splits)
    note ih = Cons.IH[OF l rest]
    note se = scan_items_effect[OF assms(1) w si[unfolded r]]
    have le1: "no_new_candidates base (ds_fs st') (ds_fs st1)" using ih by blast
    have le2: "no_new_candidates base (ds_fs st1) (ds_fs st)" using se by blast
    have le: "no_new_candidates base (ds_fs st') (ds_fs st)"
      using le1 le2 by (rule no_new_candidates_trans)
    have kn: "known_projects st \<subseteq> known_projects st1" "known_projects st1 \<subseteq> known_projects st'"
      using se ih by blast+
    have dir': "is_dir (ds_fs st') w" using le w dir by (simp add: no_new_candidates_def)
    have "\<forall>item. candidate (ds_fs st') w item \<longrightarrow> pname item \<in> known_projects st'"
    proof (intro allI impI)
      fix item assume c: "candidate (ds_fs st') w item"
      from candidate_back[OF le1 w c] have c1: "candidate (ds_fs st1) w item" .
      from candidate_back[OF le2 w c1] have "item \<in> set (children (ds_fs st) w)"
        by (simp add: candidate_def)
      with se c1 have "pname item \<in> known_projects st1" by blast
      with kn show "pname item \<in> known_projects st'" by blast
    qed
    with dir' le kn ih show ?thesis by auto
  qed
qed

lemma check_known_candidate:
  assumes "is_project_directory (ds_fs st) p" "pname p \<in> known_projects st"
  shows "check_new_project gen base now p st = (Inr False, st)"
  using assms by (simp only: check_new_project_def Let_def) simp

lemma scan_items_settled:
  assumes "\<forall>item\<in>set items. is_dir (ds_fs st) item \<and> is_project_directory (ds_fs st) item
             \<longrightarrow> pname item \<in> known_projects st"
  shows "scan_items gen base now items d st = (Inr d, st)"
  using assms
proof (induction items)
  case Nil
  then show ?case by simp
next
  case (Cons j rest)
  then have ih: "scan_items gen base now rest d st = (Inr d, st)" by simp
  show ?case
  proof (cases "is_dir (ds_fs st) j \<and> is_project_directory (ds_fs st) j")
    case False
    with ih show ?thesis by auto
  next
    case True
    with Cons.prems have "pname j \<in> known_projects st" by simp
    with True have "check_new_project gen base now j st = (Inr False, st)"
      using check_known_candidate by blast
    with True ih show ?thesis by simp
  qed
qed

lemma scan_dirs_settled:
  assumes "settled base st" "set ws \<subseteq> set (watch_dirs base)"
  shows "scan_dirs gen base now ws d st = (Inr d, st)"
  using assms(2)
proof (induction ws)
  case Nil
  then show ?case by simp
next
  case (Cons w rest)
  then have ih: "scan_dirs gen base now rest d st = (Inr d, st)"
    and w: "w \<in> set (watch_dirs base)" by auto
  show ?case
  proof (cases "exists_p (ds_fs st) w")
    case False
    with ih show ?thesis by simp
  next
    case True
    with assms(1) w have dir: "is_dir (ds_fs st) w"
      and k: "\<forall>item. candidate (ds_fs st) w item \<longrightarrow> pname item \<in> known_projects st"
      by (auto simp: settled_def)
    have "\<forall>item\<in>set (children (ds_fs st) w).
            is_dir (ds_fs st) item \<and> is_project_directory (ds_fs st) item
              \<longrightarrow> pname item \<in> known_projects st"
      using k by (auto simp: candidate_def)
    then have "scan_items gen base now (children (ds_fs st) w) d st = (Inr d, st)"
      by (rule scan_items_settled)
    with True dir ih show ?thesis by (simp add: iterdir_def)
  qed
qed

text \<open>
  Claim C2, as the code has it, for \<^verbatim>\<open>discover_all_projects\<close> of the discovery
  service. When a full scan has returned, a second full scan of the filesystem the first
  one left registers nothing: it returns 0 and leaves the whole state as it was, the
  registry, the registry file, the known ids, the sync queue and the filesystem alike.
  A known id is not analysed again. The hypothesis on the template generator is that
  applying a template creates no new qualifying directory under the watched ones.
\<close>

theorem full_scan_idempotent:
  assumes "template_confined gen base"
    and "discover_all_projects gen base t1 st0 = (Inr n1, st1)"
  shows "discover_all_projects gen base t2 st1 = (Inr 0, st1)"
proof -
  from scan_dirs_effect[OF assms(1) assms(2)[unfolded discover_all_projects_def] subset_refl]
  have "settled base st1" by (simp add: settled_def)
  then show ?thesis
    unfolding discover_all_projects_def by (rule scan_dirs_settled) simp
qed

lemma exists_p_append:
  "exists_p (fs @ [(q, e)]) k = (exists_p fs k \<or> k = q)"
  by (auto simp: exists_p_def map_add_def split: option.splits)

lemma is_dir_append_file:
  "is_dir (fs @ [(q, File a b)]) k = is_dir fs k"
  by (auto simp: is_dir_def map_add_def split: option.splits entry.splits)

lemma is_dir_listed: "is_dir fs k \<Longrightarrow> k \<in> set (map fst fs)"
proof -
  assume "is_dir fs k"
  then obtain e where "map_of fs k = Some e" by (auto simp: is_dir_def split: option.splits)
  then show ?thesis by (metis map_of_eq_None_iff option.distinct(1) set_map)
qed

lemma prompt_no_indicator:
  "i \<in> set project_indicators \<Longrightarrow> item @ [i] \<noteq> p @ [''.template-selection-prompt.md'']"
  by (auto simp: project_indicators_def)

lemma is_project_directory_prompt:
  "is_project_directory (gen_prompt p ty fs) item = is_project_directory fs item"
proof -
  have e: "\<And>i. i \<in> set project_indicators \<Longrightarrow>
      exists_p (gen_prompt p ty fs) (item @ [i]) = exists_p fs (item @ [i])"
    using prompt_no_indicator by (simp add: gen_prompt_def exists_p_append)
  have f: "filter (\<lambda>i. exists_p (gen_prompt p ty fs) (item @ [i])) project_indicators
      = filter (\<lambda>i. exists_p fs (item @ [i])) project_indicators"
    using e by (simp cong: filter_cong)
  have "\<And>i. i \<in> set key_indicators \<Longrightarrow> i \<in> set project_indicators"
    by (auto simp: key_indicators_def project_indicators_def)
  then have g: "list_ex (\<lambda>i. exists_p (gen_prompt p ty fs) (item @ [i])) key_indicators
      = list_ex (\<lambda>i. exists_p fs (item @ [i])) key_indicators"
    using e by (auto simp: list_ex_iff)
  have d: "is_dir (gen_prompt p ty fs) item = is_dir fs item"
    by (simp add: gen_prompt_def is_dir_append_file)
  show ?thesis
    unfolding is_project_directory_def Let_def f g d ..
qed

lemma gen_prompt_confined: "template_confined gen_prompt os_base"
  unfolding template_confined_def no_new_candidates_def
proof (intro allI ballI conjI impI)
  fix fs p ty w
  assume w: "w \<in> set (watch_dirs os_base)"
  then have "w \<noteq> p @ [''.template-selection-prompt.md'']"
    by (auto simp: watch_dirs_def os_base_def)
  then show "exists_p (gen_prompt p ty fs) w = exists_p fs w"
    by (simp add: gen_prompt_def exists_p_append)
  show "is_dir (gen_prompt p ty fs) w = is_dir fs w"
    by (simp add: gen_prompt_def is_dir_append_file)
  fix item assume c: "candidate (gen_prompt p ty fs) w item"
  then have c1: "item \<in> set (children (gen_prompt p ty fs) w)"
    "is_dir (gen_prompt p ty fs) item" "is_project_directory (gen_prompt p ty fs) item"
    by (simp_all add: candidate_def)
  from c1(2) have d: "is_dir fs item" by (simp add: gen_prompt_def is_dir_append_file)
  from c1(3) have pr: "is_project_directory fs item" by (simp add: is_project_directory_prompt)
  from c1(1) have ch: "item \<noteq> [] \<and> butlast item = w" by (simp add: children_def)
  from is_dir_listed[OF d] ch have "item \<in> set (children fs w)"
    by (simp add: children_def)
  with d pr show "candidate fs w item" by (simp add: candidate_def)
qed

theorem full_scan_idempotent_witness:
  "template_confined gen_prompt os_base
   \<and> fst (discover_all_projects gen_prompt os_base 100 ds_watch) = Inr 3
   \<and> discover_all_projects gen_prompt os_base 200
        (snd (discover_all_projects gen_prompt os_base 100 ds_watch))
       = (Inr 0, snd (discover_all_projects gen_prompt os_base 100 ds_watch))"
proof -
  let ?r = "discover_all_projects gen_prompt os_base 100 ds_watch"
  have a: "fst ?r = Inr 3" by code_simp
  then have b: "?r = (Inr 3, snd ?r)" by (metis prod.collapse)
  from full_scan_idempotent[OF gen_prompt_confined b, of 200] a gen_prompt_confined
  show ?thesis by simp
qed

text \<open>
  Claim C2 as stated fails for \<^verbatim>\<open>discover_projects\<close> of the lifecycle manager: with
  the filesystem unchanged, the second run returns the one project again and overwrites
  its record, whose \<^verbatim>\<open>discovered_at\<close> becomes the time of the second run.
\<close>

theorem full_scan_counterexample:
  "lm_fs (snd (discover_projects (\<lambda>t. None) 9000000000000 os_base st_fresh)) = lm_fs st_fresh
   \<and> length (projr (fst (discover_projects (\<lambda>t. None) 9000000000001 os_base
                (snd (discover_projects (\<lambda>t. None) 9000000000000 os_base st_fresh))))) = 1
   \<and> recorded_field
        (project_registry (snd (discover_projects (\<lambda>t. None) 9000000000000 os_base st_fresh)))
        ''demo'' ''discovered_at'' = Some (PIso 9000000000000)
   \<and> recorded_field
        (project_registry (snd (discover_projects (\<lambda>t. None) 9000000000001 os_base
           (snd (discover_projects (\<lambda>t. None) 9000000000000 os_base st_fresh)))))
        ''demo'' ''discovered_at'' = Some (PIso 9000000000001)"
  by code_simp

end
